theory Spec2Isabelle
  imports Complex_Main
begin

section \<open>Villager generator: a shallow embedding of \<^verbatim>\<open>villager.tsx\<close>\<close>

text \<open>
  JavaScript numbers that the program computes with are whole numbers far below
  \<open>2^53\<close>; they are modelled as \<^typ>\<open>int\<close>. A value that may be \<^verbatim>\<open>undefined\<close>
  at run time (an array read out of range) is an \<^typ>\<open>'a option\<close> with \<open>None\<close> for
  \<^verbatim>\<open>undefined\<close>. A thrown exception is the left summand of a result.
\<close>

datatype error = TypeError | RangeError

subsection \<open>The random source and the dice engine\<close>

text \<open>
  \<^verbatim>\<open>Math.random()\<close> is the only source of randomness. The generator state is the
  infinite sequence of values the calls will return, and the number of calls made so far.
  Each call returns a number in \<open>[0, 1)\<close>: this contract of the platform is the predicate
  \<open>rng_ok\<close>. The product \<^verbatim>\<open>Math.random() * sides\<close> is taken in exact arithmetic.
\<close>

type_synonym rng = "(nat \<Rightarrow> real) \<times> nat"

definition random :: "rng \<Rightarrow> real \<times> rng" where
  "random g = (fst g (snd g), (fst g, Suc (snd g)))"

definition rng_ok :: "rng \<Rightarrow> bool" where
  "rng_ok g \<longleftrightarrow> (\<forall>n. 0 \<le> fst g n \<and> fst g n < 1)"

text \<open>
  A value of the type \<^verbatim>\<open>Dice = `${number}d${number}`\<close> is represented by the two
  numbers that \<^verbatim>\<open>dice.split("d").map(Number)\<close> reads back from it.
\<close>

type_synonym dice = "nat \<times> nat"

text \<open>One die: \<^verbatim>\<open>Math.floor(Math.random() * sides) + 1\<close> for the random number \<open>u\<close>.\<close>

definition die :: "nat \<Rightarrow> real \<Rightarrow> int" where
  "die sides u = \<lfloor>u * real sides\<rfloor> + 1"

text \<open>The loop of \<^verbatim>\<open>roll\<close>: \<open>n\<close> iterations remain, \<open>acc\<close> is the variable \<^verbatim>\<open>sum\<close>.\<close>

fun roll_loop :: "nat \<Rightarrow> nat \<Rightarrow> int \<Rightarrow> rng \<Rightarrow> int \<times> rng" where
  "roll_loop 0 sides acc g = (acc, g)"
| "roll_loop (Suc n) sides acc g =
     (case random g of (u, g') \<Rightarrow> roll_loop n sides (acc + die sides u) g')"

definition roll :: "dice \<Rightarrow> rng \<Rightarrow> int \<times> rng" where
  "roll d g = roll_loop (fst d) (snd d) 0 g"

subsection \<open>Strings and numbers of the platform\<close>

text \<open>
  Strings are lists of bytes. The program only inspects ASCII characters (digits, braces,
  commas, parentheses, tabs, line feeds), so the bytes of a multi-byte character pass
  through every function below untouched. White space is the ASCII white space.
\<close>

definition is_digit :: "char \<Rightarrow> bool" where
  "is_digit c \<longleftrightarrow> c \<in> set ''0123456789''"

definition is_space :: "char \<Rightarrow> bool" where
  "is_space c \<longleftrightarrow> c \<in> set [CHR '' '', CHR 0x09, CHR 0x0A, CHR 0x0B, CHR 0x0C, CHR 0x0D]"

definition digit_val :: "char \<Rightarrow> nat" where
  "digit_val c =
     (case map_of (zip ''0123456789'' [0, 1, 2, 3, 4, 5, 6, 7, 8, 9]) c of
        Some d \<Rightarrow> d
      | None \<Rightarrow> 0)"

definition digit_char :: "nat \<Rightarrow> char" where
  "digit_char d = ''0123456789'' ! d"

text \<open>The number a string of decimal digits denotes.\<close>

definition digits_value :: "string \<Rightarrow> nat" where
  "digits_value ds = foldl (\<lambda>a c. 10 * a + digit_val c) 0 ds"

text \<open>\<^verbatim>\<open>String(n)\<close> for a whole number: its decimal digits, with a minus sign below zero.\<close>

fun digits_of :: "nat \<Rightarrow> string" where
  "digits_of n = (if n < 10 then [digit_char n] else digits_of (n div 10) @ [digit_char (n mod 10)])"

declare digits_of.simps [simp del]

definition String :: "int \<Rightarrow> string" where
  "String n = (if n < 0 then CHR ''-'' # digits_of (nat (- n)) else digits_of (nat n))"

text \<open>
  A number read from text is a whole number or \<^verbatim>\<open>NaN\<close>. \<^verbatim>\<open>Number(s)\<close> is modelled on
  the texts the tables hold: white space around an optionally signed run of decimal digits
  is that number, the empty text is 0, any other text is \<^verbatim>\<open>NaN\<close> (fractions, exponents,
  radix prefixes and \<^verbatim>\<open>Infinity\<close> are outside the model).
\<close>

datatype number = Num int | NaN

definition trim :: "string \<Rightarrow> string" where
  "trim s = rev (dropWhile is_space (rev (dropWhile is_space s)))"

definition unsigned_digits :: "string \<Rightarrow> number" where
  "unsigned_digits s = (if s \<noteq> [] \<and> list_all is_digit s then Num (int (digits_value s)) else NaN)"

definition negate :: "number \<Rightarrow> number" where
  "negate n = (case n of Num i \<Rightarrow> Num (- i) | NaN \<Rightarrow> NaN)"

definition Number :: "string \<Rightarrow> number" where
  "Number s =
     (case trim s of
        [] \<Rightarrow> Num 0
      | c # r \<Rightarrow>
          if c = CHR ''-'' then negate (unsigned_digits r)
          else if c = CHR ''+'' then unsigned_digits r
          else unsigned_digits (c # r))"

text \<open>
  \<^verbatim>\<open>parseInt(s, 10)\<close>: leading white space is skipped, a sign is read, and the longest
  run of digits that follows is the number; no digit there gives \<^verbatim>\<open>NaN\<close>.
\<close>

definition parseInt :: "string \<Rightarrow> number" where
  "parseInt s =
     (let t = dropWhile is_space s;
          neg = (t \<noteq> [] \<and> hd t = CHR ''-'');
          r = (if t \<noteq> [] \<and> (hd t = CHR ''-'' \<or> hd t = CHR ''+'') then tl t else t);
          ds = takeWhile is_digit r
      in if ds = [] then NaN
         else if neg then Num (- int (digits_value ds)) else Num (int (digits_value ds)))"

text \<open>\<^verbatim>\<open>s.split(sep)\<close> for a separator of one character; the result is never empty.\<close>

fun split_on :: "char \<Rightarrow> string \<Rightarrow> string list" where
  "split_on sep [] = [[]]"
| "split_on sep (c # cs) =
     (if c = sep then [] # split_on sep cs
      else (case split_on sep cs of
              x # xs \<Rightarrow> (c # x) # xs
            | [] \<Rightarrow> [[c]]))"

text \<open>\<^verbatim>\<open>xs[i]\<close>: out of range the value is \<^verbatim>\<open>undefined\<close>, and nothing is thrown.\<close>

definition elem_at :: "'a list \<Rightarrow> int \<Rightarrow> 'a option" where
  "elem_at xs i = (if 0 \<le> i \<and> i < int (length xs) then Some (xs ! nat i) else None)"

text \<open>A string or \<^verbatim>\<open>undefined\<close> converted to a string.\<close>

definition to_text :: "string option \<Rightarrow> string" where
  "to_text v = (case v of Some s \<Rightarrow> s | None \<Rightarrow> ''undefined'')"

text \<open>
  \<^verbatim>\<open>toLowerCase\<close> on the letters A to Z; the bytes of other letters are kept, and no
  property below depends on them.
\<close>

definition lower_char :: "char \<Rightarrow> char" where
  "lower_char c =
     (case map_of (zip ''ABCDEFGHIJKLMNOPQRSTUVWXYZ'' ''abcdefghijklmnopqrstuvwxyz'') c of
        Some l \<Rightarrow> l
      | None \<Rightarrow> c)"

definition toLowerCase :: "string \<Rightarrow> string" where
  "toLowerCase s = map lower_char s"

subsection \<open>Ability modifiers\<close>

definition getMod :: "int \<Rightarrow> int" where
  "getMod score =
     (if score = 3 then -3
      else if score \<le> 5 then -2
      else if score \<le> 8 then -1
      else if score \<le> 12 then 0
      else if score \<le> 15 then 1
      else if score \<le> 17 then 2
      else 3)"

definition formatMod :: "int \<Rightarrow> string" where
  "formatMod m = (if m \<ge> 0 then CHR ''+'' # String m else String m)"

subsection \<open>The table loader\<close>

text \<open>
  \<^verbatim>\<open>readTsv\<close> is applied to the text of a file: the text is trimmed, cut into lines and
  each line into its tab-separated cells. The first line is the header, which the program
  drops. The four tables are fixed when the program starts; the generator reads them.
\<close>

type_synonym row = "string list"

definition readTsv :: "string \<Rightarrow> row list" where
  "readTsv content = map (split_on (CHR 0x09)) (split_on (CHR 0x0A) (trim content))"

record tables =
  occupationRows :: "row list"
  nameRows :: "row list"
  lookRows :: "row list"
  bondRows :: "row list"

definition load_tables :: "string \<Rightarrow> string \<Rightarrow> string \<Rightarrow> string \<Rightarrow> tables" where
  "load_tables occupations names looks bonds =
     \<lparr>occupationRows = tl (readTsv occupations), nameRows = tl (readTsv names),
      lookRows = tl (readTsv looks), bondRows = tl (readTsv bonds)\<rparr>"

subsection \<open>Gear templates\<close>

definition CROPS :: "string list" where
  "CROPS = [''barley'', ''onions'', ''peppers'', ''potatoes'', ''squash'', ''rice'', ''wheat'',
            ''hops'', ''beets'', ''oats'']"

definition INSTRUMENTS :: "string list" where
  "INSTRUMENTS = [''accordion (2 wt)'', ''drum (1 wt)'', ''fiddle (1 wt)'', ''flute'',
                  ''guitar (1 wt)'', ''mbira'', ''horn (1 wt)'', ''banjo (1 wt)'']"

definition ANIMAL_TRAINER_GEAR :: "string list" where
  "ANIMAL_TRAINER_GEAR = [''leather gauntlet, falcon'', ''2 dogs, leashes'',
                          ''monkey, music box (2 wt)'', ''cage (1 wt), 2 ferrets'']"

text \<open>
  The pattern \<^verbatim>\<open>\{(\d+)d(\d+)\}\<close> tried at the start of a string: the two numbers
  captured and the text that follows the match. A run of digits is always followed by a character
  that is not a digit, so the greedy match of \<^verbatim>\<open>\d+\<close> is the only one.
\<close>

definition match_dice :: "string \<Rightarrow> (dice \<times> string) option" where
  "match_dice s =
     (case s of
        [] \<Rightarrow> None
      | c # r \<Rightarrow>
          if c \<noteq> CHR ''{'' \<or> takeWhile is_digit r = [] then None
          else (case dropWhile is_digit r of
                  [] \<Rightarrow> None
                | d # r2 \<Rightarrow>
                    if d \<noteq> CHR ''d'' \<or> takeWhile is_digit r2 = [] then None
                    else (case dropWhile is_digit r2 of
                            [] \<Rightarrow> None
                          | e # r4 \<Rightarrow>
                              if e = CHR ''}''
                              then Some ((digits_value (takeWhile is_digit r),
                                          digits_value (takeWhile is_digit r2)), r4)
                              else None)))"

lemma dropWhile_Cons_shorter: "dropWhile P xs = y # ys \<Longrightarrow> length ys < length xs"
  using length_dropWhile_le [of P xs] by simp

lemma match_dice_shorter: "match_dice s = Some (d, rest) \<Longrightarrow> length rest < length s"
  unfolding match_dice_def
  by (fastforce split: list.splits if_splits dest: dropWhile_Cons_shorter)

text \<open>
  \<^verbatim>\<open>replace(/\{(\d+)d(\d+)\}/g, ...)\<close>: the matches are found from left to right, none
  inside another, and the callback rolls the dice of each match in that order.
\<close>

function replace_dice :: "string \<Rightarrow> rng \<Rightarrow> string \<times> rng" where
  "replace_dice [] g = ([], g)"
| "replace_dice (c # cs) g =
     (case match_dice (c # cs) of
        Some (d, rest) \<Rightarrow>
          (case roll d g of (n, g1) \<Rightarrow>
             (case replace_dice rest g1 of (out, g2) \<Rightarrow> (String n @ out, g2)))
      | None \<Rightarrow> (case replace_dice cs g of (out, g') \<Rightarrow> (c # out, g')))"
  by pat_completeness auto
termination
  by (relation "measure (\<lambda>(s, g). length s)") (auto dest: match_dice_shorter)

text \<open>
  \<^verbatim>\<open>replace(/pat/g, f)\<close> for a pattern that is the plain, non-empty text \<open>pat\<close>; the
  callback \<open>f\<close> draws from the random source and returns the replacement.
\<close>

fun replace_token :: "string \<Rightarrow> (rng \<Rightarrow> string \<times> rng) \<Rightarrow> string \<Rightarrow> rng \<Rightarrow> string \<times> rng" where
  "replace_token pat f [] g = ([], g)"
| "replace_token pat f (c # cs) g =
     (if take (length pat) (c # cs) = pat
      then (case f g of (rep, g1) \<Rightarrow>
              (case replace_token pat f (drop (length pat - 1) cs) g1 of
                 (out, g2) \<Rightarrow> (rep @ out, g2)))
      else (case replace_token pat f cs g of (out, g') \<Rightarrow> (c # out, g')))"

text \<open>The callbacks of \<^verbatim>\<open>expandGearTemplate\<close>, in the order of its \<^verbatim>\<open>replace\<close> calls.\<close>

definition compound_value :: "rng \<Rightarrow> string \<times> rng" where
  "compound_value g = (case roll (1, 4) g of (n, g') \<Rightarrow> (String (2 + n * 2), g'))"

definition crop_value :: "rng \<Rightarrow> string \<times> rng" where
  "crop_value g = (case roll (1, 10) g of (n, g') \<Rightarrow> (to_text (elem_at CROPS (n - 1)), g'))"

definition instrument_value :: "rng \<Rightarrow> string \<times> rng" where
  "instrument_value g =
     (case roll (1, 8) g of (n, g') \<Rightarrow> (to_text (elem_at INSTRUMENTS (n - 1)), g'))"

definition animal_trainer_gear_value :: "rng \<Rightarrow> string \<times> rng" where
  "animal_trainer_gear_value g =
     (case roll (1, 4) g of (n, g') \<Rightarrow> (to_text (elem_at ANIMAL_TRAINER_GEAR (n - 1)), g'))"

definition poultry_value :: "rng \<Rightarrow> string \<times> rng" where
  "poultry_value g =
     (case roll (1, 6) g of (a, g1) \<Rightarrow>
      case roll (1, 6) g1 of (b, g2) \<Rightarrow>
      case roll (1, 4) g2 of (c, g3) \<Rightarrow>
      case roll (1, 4) g3 of (d, g4) \<Rightarrow>
      case roll (1, 4) g4 of (n, g5) \<Rightarrow>
        (to_text (elem_at [String a @ '' chickens'', String b @ '' ducks'',
                           String c @ '' geese'', String d @ '' swans''] (n - 1)), g5))"

definition expandGearTemplate :: "string \<Rightarrow> rng \<Rightarrow> string \<times> rng" where
  "expandGearTemplate template g =
     (case replace_dice template g of (t1, g1) \<Rightarrow>
      case replace_token ''{2+1d4*2}'' compound_value t1 g1 of (t2, g2) \<Rightarrow>
      case replace_token ''{crop}'' crop_value t2 g2 of (t3, g3) \<Rightarrow>
      case replace_token ''{instrument}'' instrument_value t3 g3 of (t4, g4) \<Rightarrow>
      case replace_token ''{animal_trainer_gear}'' animal_trainer_gear_value t4 g4 of (t5, g5) \<Rightarrow>
        replace_token ''{poultry}'' poultry_value t5 g5)"

subsection \<open>Occupations\<close>

definition parseRange :: "string \<Rightarrow> number \<times> number" where
  "parseRange s =
     (case map Number (split_on CHR ''-'' s) of
        [] \<Rightarrow> (NaN, NaN)
      | [p] \<Rightarrow> (p, p)
      | p # q # _ \<Rightarrow> (p, q))"

text \<open>
  The test of \<^verbatim>\<open>occupationRows.find\<close> on the first cell of a row:
  \<^verbatim>\<open>rollResult >= min && rollResult <= max\<close>. A comparison with \<^verbatim>\<open>NaN\<close> is false.
\<close>

definition range_matches :: "string \<Rightarrow> int \<Rightarrow> bool" where
  "range_matches cell rollResult =
     (case parseRange cell of
        (Num lo, Num hi) \<Rightarrow> rollResult \<ge> lo \<and> rollResult \<le> hi
      | _ \<Rightarrow> False)"

text \<open>
  \<^verbatim>\<open>find\<close> returns the first row that passes the test, or \<^verbatim>\<open>undefined\<close>. A row
  with no cell at all has an \<^verbatim>\<open>undefined\<close> range, and \<^verbatim>\<open>s.split\<close> throws on it.
\<close>

fun find_occupation :: "row list \<Rightarrow> int \<Rightarrow> error + row option" where
  "find_occupation [] rollResult = Inr None"
| "find_occupation (r # rs) rollResult =
     (case r of
        [] \<Rightarrow> Inl TypeError
      | cell # _ \<Rightarrow>
          if range_matches cell rollResult then Inr (Some r)
          else find_occupation rs rollResult)"

record occupation_result =
  occ_name :: "string option"
  occ_gear :: string
  occ_species :: string

text \<open>
  \<^verbatim>\<open>getOccupation\<close>: reading a cell of a missing row throws, and so does
  \<^verbatim>\<open>template.replace\<close> on a missing gear cell. The species cell is used as it is;
  a missing or empty one is \<^verbatim>\<open>"Human"\<close>.
\<close>

definition getOccupation :: "tables \<Rightarrow> int \<Rightarrow> rng \<Rightarrow> error + occupation_result \<times> rng" where
  "getOccupation T rollResult g =
     (case find_occupation (occupationRows T) rollResult of
        Inl e \<Rightarrow> Inl e
      | Inr None \<Rightarrow> Inl TypeError
      | Inr (Some r) \<Rightarrow>
          (case elem_at r 2 of
             None \<Rightarrow> Inl TypeError
           | Some template \<Rightarrow>
               (case expandGearTemplate template g of
                  (gear, g') \<Rightarrow>
                    Inr (\<lparr>occ_name = elem_at r 1, occ_gear = gear,
                          occ_species = (case elem_at r 3 of
                                           None \<Rightarrow> ''Human''
                                         | Some sp \<Rightarrow> if sp = [] then ''Human'' else sp)\<rparr>, g'))))"

subsection \<open>Names, looks, bonds and heritage moves\<close>

definition getName :: "tables \<Rightarrow> string \<Rightarrow> rng \<Rightarrow> error + string option \<times> rng" where
  "getName T species g =
     (case roll (1, 20) g of (n, g1) \<Rightarrow>
        (case elem_at (nameRows T) (n - 1) of
           None \<Rightarrow> Inl TypeError
         | Some r \<Rightarrow>
             if species = ''Elf'' then Inr (elem_at r 4, g1)
             else if species = ''Dwarf'' then Inr (elem_at r 5, g1)
             else if species = ''Halfling'' then Inr (elem_at r 6, g1)
             else (case roll (1, 2) g1 of (a, g2) \<Rightarrow>
                     if a = 1
                     then (case roll (1, 2) g2 of (b, g3) \<Rightarrow> Inr (elem_at r b, g3))
                     else Inr (elem_at r 3, g2))))"

text \<open>One cell of the look table: the row is rolled, the column is fixed.\<close>

definition look_cell :: "tables \<Rightarrow> int \<Rightarrow> rng \<Rightarrow> error + string option \<times> rng" where
  "look_cell T col g =
     (case roll (1, 20) g of (n, g') \<Rightarrow>
        (case elem_at (lookRows T) (n - 1) of
           None \<Rightarrow> Inl TypeError
         | Some r \<Rightarrow> Inr (elem_at r col, g')))"

text \<open>
  \<^verbatim>\<open>getLook\<close>: the five cells are read first, each with its own roll; then the
  sentence is built, and \<^verbatim>\<open>toLowerCase\<close> throws on a missing cell.
\<close>

definition getLook :: "tables \<Rightarrow> rng \<Rightarrow> error + string \<times> rng" where
  "getLook T g =
     (case look_cell T 1 g of Inl e \<Rightarrow> Inl e | Inr (face, g1) \<Rightarrow>
      case look_cell T 2 g1 of Inl e \<Rightarrow> Inl e | Inr (eyes, g2) \<Rightarrow>
      case look_cell T 3 g2 of Inl e \<Rightarrow> Inl e | Inr (hair, g3) \<Rightarrow>
      case look_cell T 4 g3 of Inl e \<Rightarrow> Inl e | Inr (body, g4) \<Rightarrow>
      case look_cell T 5 g4 of Inl e \<Rightarrow> Inl e | Inr (clothing, g5) \<Rightarrow>
        (case (face, eyes, hair, body, clothing) of
           (Some f, Some e, Some h, Some b, Some c) \<Rightarrow>
             Inr (toLowerCase f @ '' face, '' @ toLowerCase e @ '' eyes, '' @ toLowerCase h
                  @ '' hair, '' @ toLowerCase b @ '' body, '' @ toLowerCase c @ '' clothing'', g5)
         | _ \<Rightarrow> Inl TypeError))"

text \<open>
  \<^verbatim>\<open>s.replace(pat, rep)\<close> with a plain text pattern replaces the first occurrence only,
  and expands \<^verbatim>\<open>$$\<close>, \<^verbatim>\<open>$&\<close>, \<^verbatim>\<open>$`\<close> and \<^verbatim>\<open>$'\<close> in the replacement text.
\<close>

fun find_first :: "string \<Rightarrow> string \<Rightarrow> (string \<times> string) option" where
  "find_first pat [] = (if pat = [] then Some ([], []) else None)"
| "find_first pat (c # cs) =
     (if take (length pat) (c # cs) = pat then Some ([], drop (length pat) (c # cs))
      else (case find_first pat cs of
              None \<Rightarrow> None
            | Some (pre, post) \<Rightarrow> Some (c # pre, post)))"

fun getSubstitution :: "string \<Rightarrow> string \<Rightarrow> string \<Rightarrow> string \<Rightarrow> string" where
  "getSubstitution matched pre post (a # b # r) =
     (if a = CHR ''$'' \<and> b = CHR ''$'' then CHR ''$'' # getSubstitution matched pre post r
      else if a = CHR ''$'' \<and> b = CHR ''&'' then matched @ getSubstitution matched pre post r
      else if a = CHR ''$'' \<and> b = CHR 0x60 then pre @ getSubstitution matched pre post r
      else if a = CHR ''$'' \<and> b = CHR 0x27 then post @ getSubstitution matched pre post r
      else a # getSubstitution matched pre post (b # r))"
| "getSubstitution matched pre post r = r"

definition replace_first :: "string \<Rightarrow> string \<Rightarrow> string \<Rightarrow> string" where
  "replace_first pat rep s =
     (case find_first pat s of
        None \<Rightarrow> s
      | Some (pre, post) \<Rightarrow> pre @ getSubstitution pat pre post rep @ post)"

definition getBond :: "tables \<Rightarrow> rng \<Rightarrow> error + string \<times> rng" where
  "getBond T g =
     (case roll (1, 20) g of (n, g1) \<Rightarrow>
        (case elem_at (bondRows T) (n - 1) of
           None \<Rightarrow> Inl TypeError
         | Some r \<Rightarrow>
             (case roll (1, 4) g1 of (k, g2) \<Rightarrow>
                (case elem_at r 0 of
                   None \<Rightarrow> Inl TypeError
                 | Some template \<Rightarrow>
                     Inr (replace_first ''...'' (to_text (elem_at r k)) template, g2)))))"

definition getHeritageMoves :: "string \<Rightarrow> string list" where
  "getHeritageMoves species =
     (if species = ''Dwarf'' then
        [''Etched in Stone: When you appraise an artificial item, object, or location, the GM will tell you something interesting about the one who made it, no questions asked.'']
      else if species = ''Elf'' then
        [''These Elf Eyes: You see perfectly in the barest light and may focus your senses to Detect Magic at will.'']
      else if species = ''Halfling'' then
        [''Lucky: When you Tempt Fate and score a 10+ you don'' @ [CHR 0x27] @ ''t suffer disadvantage and on a 12+ your luck rubs off; the nearest ally gains advantage on their next roll.'']
      else [])"

subsection \<open>The generator\<close>

text \<open>The seven scores; \<open>a_STR\<close> is the field \<^verbatim>\<open>STR\<close>, and so on.\<close>

record abilities =
  a_STR :: int
  a_DEX :: int
  a_CON :: int
  a_INT :: int
  a_WIS :: int
  a_CHA :: int
  a_LUC :: int

record villager =
  name :: "string option"
  species :: string
  occupation :: "string option"
  look :: string
  stats :: abilities
  modifiers :: abilities
  hp :: int
  load :: int
  damage :: string
  gear :: "string list"
  bond :: string
  heritageMoves :: "string list"

text \<open>
  The draws follow the order of evaluation of the source: the seven scores, the
  occupation roll, the gear template, then the name, the look and the bond.
\<close>

definition generateVillager :: "tables \<Rightarrow> rng \<Rightarrow> error + villager \<times> rng" where
  "generateVillager T g =
     (case roll (3, 6) g of (str, g1) \<Rightarrow>
      case roll (3, 6) g1 of (dex, g2) \<Rightarrow>
      case roll (3, 6) g2 of (con, g3) \<Rightarrow>
      case roll (3, 6) g3 of (int', g4) \<Rightarrow>
      case roll (3, 6) g4 of (wis, g5) \<Rightarrow>
      case roll (3, 6) g5 of (cha, g6) \<Rightarrow>
      case roll (3, 6) g6 of (luc, g7) \<Rightarrow>
      case roll (1, 100) g7 of (r, g8) \<Rightarrow>
      case getOccupation T r g8 of Inl e \<Rightarrow> Inl e | Inr (occ, g9) \<Rightarrow>
      case getName T (occ_species occ) g9 of Inl e \<Rightarrow> Inl e | Inr (nm, g10) \<Rightarrow>
      case getLook T g10 of Inl e \<Rightarrow> Inl e | Inr (lk, g11) \<Rightarrow>
      case getBond T g11 of Inl e \<Rightarrow> Inl e | Inr (bd, g12) \<Rightarrow>
        Inr (\<lparr>name = nm, species = occ_species occ, occupation = occ_name occ, look = lk,
              stats = \<lparr>a_STR = str, a_DEX = dex, a_CON = con, a_INT = int', a_WIS = wis, a_CHA = cha,
                       a_LUC = luc\<rparr>,
              modifiers = \<lparr>a_STR = getMod str, a_DEX = getMod dex, a_CON = getMod con,
                           a_INT = getMod int', a_WIS = getMod wis, a_CHA = getMod cha,
                           a_LUC = getMod luc\<rparr>,
              hp = con + 4, load = str + 4, damage = ''d4'', gear = [occ_gear occ],
              bond = bd, heritageMoves = getHeritageMoves (occ_species occ)\<rparr>, g12))"

subsection \<open>Presentation\<close>

text \<open>
  The loop of \<^verbatim>\<open>parseGear\<close> over the characters of the gear string, with its three
  variables; the last, unfinished item is pushed when it is not blank.
\<close>

fun parseGear_loop :: "string \<Rightarrow> string list \<Rightarrow> string \<Rightarrow> int \<Rightarrow> string list" where
  "parseGear_loop [] items current depth =
     (if trim current \<noteq> [] then items @ [trim current] else items)"
| "parseGear_loop (c # cs) items current depth =
     (let depth1 = (if c = CHR ''('' then depth + 1 else depth);
          depth2 = (if c = CHR '')'' then depth1 - 1 else depth1)
      in if c = CHR '','' \<and> depth2 = 0
         then parseGear_loop cs (items @ [trim current]) [] depth2
         else parseGear_loop cs items (current @ [c]) depth2)"

definition parseGear :: "string \<Rightarrow> string list" where
  "parseGear gearStr = parseGear_loop gearStr [] [] 0"

text \<open>
  What the components hand to the terminal library is kept as data: a \<^verbatim>\<open>Stat\<close> box
  is its three texts and the colour of the modifier, a card is the texts of its sections.
\<close>

definition padStart2 :: "string \<Rightarrow> string" where
  "padStart2 s = replicate (2 - length s) CHR '' '' @ s"

record stat_box =
  stat_name :: string
  stat_value :: string
  stat_mod :: string
  stat_modColor :: string

definition Stat :: "string \<Rightarrow> int \<Rightarrow> int \<Rightarrow> stat_box" where
  "Stat nm val m =
     \<lparr>stat_name = nm, stat_value = padStart2 (String val), stat_mod = padStart2 (formatMod m),
      stat_modColor = (if m > 0 then ''green'' else if m < 0 then ''red'' else ''gray'')\<rparr>"

record card =
  card_name :: "string option"
  card_occupation :: "string option"
  card_look :: string
  card_stats :: "stat_box list"
  card_hp :: int
  card_load :: int
  card_damage :: string
  card_gearItems :: "string list"
  card_bond :: string
  card_speciesColor :: string
  card_heritageMoves :: "string list"

definition VillagerCard :: "villager \<Rightarrow> card" where
  "VillagerCard v =
     \<lparr>card_name = name v, card_occupation = occupation v, card_look = look v,
      card_stats =
        [Stat ''STR'' (a_STR (stats v)) (a_STR (modifiers v)),
         Stat ''DEX'' (a_DEX (stats v)) (a_DEX (modifiers v)),
         Stat ''CON'' (a_CON (stats v)) (a_CON (modifiers v)),
         Stat ''INT'' (a_INT (stats v)) (a_INT (modifiers v)),
         Stat ''WIS'' (a_WIS (stats v)) (a_WIS (modifiers v)),
         Stat ''CHA'' (a_CHA (stats v)) (a_CHA (modifiers v)),
         Stat ''LUC'' (a_LUC (stats v)) (a_LUC (modifiers v))],
      card_hp = hp v, card_load = load v, card_damage = damage v,
      card_gearItems = concat (map parseGear (gear v)),
      card_bond = bond v,
      card_speciesColor =
        (if species v = ''Dwarf'' then ''red''
         else if species v = ''Elf'' then ''cyan''
         else if species v = ''Halfling'' then ''green''
         else ''white''),
      card_heritageMoves = heritageMoves v\<rparr>"

definition App :: "villager list \<Rightarrow> card list" where
  "App villagers = map VillagerCard villagers"

subsection \<open>The program\<close>

text \<open>
  \<^verbatim>\<open>Array.from({ length: count }, generateVillager)\<close>: the length is \<^verbatim>\<open>ToLength(count)\<close>,
  which is 0 for \<^verbatim>\<open>NaN\<close> and for a negative number and at most \<open>2^53 - 1\<close>; an array
  of \<open>2^32 = 4294967296\<close> elements or more cannot be made, and the constructor throws. The elements are generated in order, and
  the first exception ends the program.
\<close>

definition toLength :: "number \<Rightarrow> int" where
  "toLength n = (case n of NaN \<Rightarrow> 0 | Num i \<Rightarrow> if i \<le> 0 then 0 else min i 9007199254740991)"

fun generate_loop :: "tables \<Rightarrow> nat \<Rightarrow> rng \<Rightarrow> error + villager list \<times> rng" where
  "generate_loop T 0 g = Inr ([], g)"
| "generate_loop T (Suc n) g =
     (case generateVillager T g of
        Inl e \<Rightarrow> Inl e
      | Inr (v, g1) \<Rightarrow>
          (case generate_loop T n g1 of
             Inl e \<Rightarrow> Inl e
           | Inr (vs, g2) \<Rightarrow> Inr (v # vs, g2)))"

definition array_from :: "tables \<Rightarrow> number \<Rightarrow> rng \<Rightarrow> error + villager list \<times> rng" where
  "array_from T count g =
     (if toLength count \<ge> 4294967296 then Inl RangeError
      else generate_loop T (nat (toLength count)) g)"

text \<open>
  The program: \<open>arg\<close> is \<^verbatim>\<open>process.argv[2]\<close>, absent when no argument was given.
  The result is the list of villagers and the cards rendered from it.
\<close>

definition main :: "tables \<Rightarrow> string option \<Rightarrow> rng \<Rightarrow> error + villager list \<times> card list" where
  "main T arg g =
     (let count = parseInt (case arg of
                              None \<Rightarrow> ''1''
                            | Some a \<Rightarrow> if a = [] then ''1'' else a)
      in case array_from T count g of
           Inl e \<Rightarrow> Inl e
         | Inr (villagers, g') \<Rightarrow> Inr (villagers, App villagers))"

subsection \<open>Vocabulary of the specification\<close>

text \<open>
  The two definitions below are not taken from the program. They state, in the words of the
  specification, what a comma at nesting depth zero is: the depth after a text is the
  number of its opening parentheses minus the number of its closing ones, and position
  \<open>i\<close> of \<open>s\<close> is a top-level comma when it holds a comma and the depth after the first
  \<open>i\<close> characters is zero.
\<close>

fun depth_after :: "string \<Rightarrow> int" where
  "depth_after [] = 0"
| "depth_after (c # cs) =
     (if c = CHR ''('' then 1 else if c = CHR '')'' then - 1 else 0) + depth_after cs"

definition top_level_comma :: "string \<Rightarrow> nat \<Rightarrow> bool" where
  "top_level_comma s i \<longleftrightarrow> i < length s \<and> s ! i = CHR '','' \<and> depth_after (take i s) = 0"










text \<open>
  Well-formed tables. \<open>tables_as_claimed\<close> is the precondition as the claim lists it:
  every occupation row starts with a range that parses as integers, the ranges jointly
  cover 1 to 100, and the name, look and bond tables have at least 20 rows, each with all
  the columns of its schema (7, 6 and 5 cells). \<open>tables_well_formed\<close> also asks every
  occupation row for its range, name and gear template, three cells.
\<close>

definition range_parses :: "string \<Rightarrow> bool" where
  "range_parses cell = (case parseRange cell of (Num _, Num _) \<Rightarrow> True | _ \<Rightarrow> False)"

definition table_has :: "row list \<Rightarrow> nat \<Rightarrow> bool" where
  "table_has rows k \<longleftrightarrow> 20 \<le> length rows \<and> (\<forall>r\<in>set rows. k \<le> length r)"

definition tables_as_claimed :: "tables \<Rightarrow> bool" where
  "tables_as_claimed T \<longleftrightarrow>
     (\<forall>r\<in>set (occupationRows T). r \<noteq> [] \<and> range_parses (hd r))
     \<and> (\<forall>n\<in>{1..100}. \<exists>r\<in>set (occupationRows T). range_matches (hd r) n)
     \<and> table_has (nameRows T) 7 \<and> table_has (lookRows T) 6 \<and> table_has (bondRows T) 5"

definition tables_well_formed :: "tables \<Rightarrow> bool" where
  "tables_well_formed T \<longleftrightarrow>
     tables_as_claimed T \<and> (\<forall>r\<in>set (occupationRows T). 3 \<le> length r)"

text \<open>
  The invariants of a villager record, as the specification lists them: every score is
  between 3 and 18, every modifier is \<open>getMod\<close> of its score, \<open>hp\<close> and \<open>load\<close> are the
  CON and STR scores plus 4, the damage is \<open>d4\<close>, the gear has one entry, and the heritage
  moves are those of the species, at most one.
\<close>

definition score_ok :: "int \<Rightarrow> bool" where
  "score_ok x \<longleftrightarrow> 3 \<le> x \<and> x \<le> 18"

definition villager_invariants :: "villager \<Rightarrow> bool" where
  "villager_invariants v \<longleftrightarrow>
     score_ok (a_STR (stats v)) \<and> score_ok (a_DEX (stats v)) \<and> score_ok (a_CON (stats v))
     \<and> score_ok (a_INT (stats v)) \<and> score_ok (a_WIS (stats v)) \<and> score_ok (a_CHA (stats v))
     \<and> score_ok (a_LUC (stats v))
     \<and> modifiers v = \<lparr>a_STR = getMod (a_STR (stats v)), a_DEX = getMod (a_DEX (stats v)),
                      a_CON = getMod (a_CON (stats v)), a_INT = getMod (a_INT (stats v)),
                      a_WIS = getMod (a_WIS (stats v)), a_CHA = getMod (a_CHA (stats v)),
                      a_LUC = getMod (a_LUC (stats v))\<rparr>
     \<and> hp v = a_CON (stats v) + 4 \<and> load v = a_STR (stats v) + 4 \<and> damage v = ''d4''
     \<and> length (gear v) = 1
     \<and> heritageMoves v = getHeritageMoves (species v) \<and> length (heritageMoves v) \<le> 1"

subsection \<open>Sample inputs\<close>

text \<open>
  A random source on which every die shows its lowest face, a small set of well-formed
  tables, and the same tables with an occupation row that has lost its gear cell.
\<close>

text \<open>What a caller sees of a run: the value returned or the exception thrown.\<close>

definition outcome :: "error + 'a \<times> rng \<Rightarrow> error + 'a" where
  "outcome r = (case r of Inl e \<Rightarrow> Inl e | Inr (x, g) \<Rightarrow> Inr x)"

definition zero_rng :: rng where
  "zero_rng = (\<lambda>_. 0, 0)"



definition sample_tables :: tables where
  "sample_tables =
     \<lparr>occupationRows =
        [[''1-50'', ''Farmer'', ''pitchfork, {1d6} sacks of {crop}''],
         [''51-100'', ''Miner'', ''pick (1 wt), lantern'', ''Dwarf'']],
      nameRows = replicate 20 [''1'', ''Ann'', ''Bob'', ''Cy'', ''Elra'', ''Durin'', ''Pip''],
      lookRows = replicate 20 [''1'', ''Round'', ''Blue'', ''Curly'', ''Thin'', ''Patched''],
      bondRows = replicate 20 [''I owe ... a debt'', ''the miller'', ''the priest'',
                               ''a stranger'', ''my kin'']\<rparr>"


definition sample_villager :: villager where
  "sample_villager =
     \<lparr>name = Some ''Ann'', species = ''Human'', occupation = Some ''Farmer'',
      look = ''round face, blue eyes, curly hair, thin body, patched clothing'',
      stats = \<lparr>a_STR = 3, a_DEX = 3, a_CON = 3, a_INT = 3, a_WIS = 3, a_CHA = 3, a_LUC = 3\<rparr>,
      modifiers = \<lparr>a_STR = - 3, a_DEX = - 3, a_CON = - 3, a_INT = - 3, a_WIS = - 3,
                   a_CHA = - 3, a_LUC = - 3\<rparr>,
      hp = 7, load = 7, damage = ''d4'', gear = [''pitchfork, 1 sacks of barley''],
      bond = ''I owe the miller a debt'', heritageMoves = []\<rparr>"

section \<open>Properties\<close>

subsection \<open>The modifier table\<close>

text \<open>
  C3: \<open>getMod\<close> is defined on every score from 3 to 20 and agrees with the step table:
  \<open>-3\<close> at 3, \<open>-2\<close> on 4..5, \<open>-1\<close> on 6..8, \<open>0\<close> on 9..12, \<open>+1\<close> on 13..15,
  \<open>+2\<close> on 16..17 and \<open>+3\<close> from 18 upwards; the boundary scores 3, 5, 8, 12, 15, 17
  and 18 are listed explicitly.
\<close>

theorem getMod_step_table:
  "getMod 3 = -3
   \<and> (4 \<le> s \<and> s \<le> 5 \<longrightarrow> getMod s = -2)
   \<and> (6 \<le> s \<and> s \<le> 8 \<longrightarrow> getMod s = -1)
   \<and> (9 \<le> s \<and> s \<le> 12 \<longrightarrow> getMod s = 0)
   \<and> (13 \<le> s \<and> s \<le> 15 \<longrightarrow> getMod s = 1)
   \<and> (16 \<le> s \<and> s \<le> 17 \<longrightarrow> getMod s = 2)
   \<and> (18 \<le> s \<longrightarrow> getMod s = 3)
   \<and> map getMod [3, 4, 5, 6, 7, 8, 9, 10, 11, 12, 13, 14, 15, 16, 17, 18, 19, 20]
       = [-3, -2, -2, -1, -1, -1, 0, 0, 0, 0, 1, 1, 1, 2, 2, 3, 3, 3]"
  by (simp add: getMod_def)

theorem getMod_step_table_witness:
  "getMod 3 = -3 \<and> getMod 5 = -2 \<and> getMod 8 = -1 \<and> getMod 12 = 0
   \<and> getMod 15 = 1 \<and> getMod 17 = 2 \<and> getMod 18 = 3"
  using getMod_step_table [of 5] getMod_step_table [of 8] getMod_step_table [of 12]
    getMod_step_table [of 15] getMod_step_table [of 17] getMod_step_table [of 18]
  by simp

text \<open>
  C9: on scores from 3 upwards \<open>getMod\<close> is monotone, on every integer its value lies
  between \<open>-3\<close> and \<open>3\<close>, and the bound 3 on the scores cannot be dropped:
  \<open>getMod 2 = -2\<close> is above \<open>getMod 3 = -3\<close>.
\<close>

theorem getMod_monotone_bounded:
  "(3 \<le> s \<and> s \<le> t \<longrightarrow> getMod s \<le> getMod t)
   \<and> -3 \<le> getMod x \<and> getMod x \<le> 3
   \<and> getMod 2 = -2 \<and> getMod 3 = -3 \<and> getMod 3 < getMod 2"
  by (simp add: getMod_def)

theorem getMod_monotone_bounded_witness:
  "(3::int) \<le> 5 \<and> (5::int) \<le> 13 \<and> getMod 5 \<le> getMod 13"
  using getMod_monotone_bounded [of 5 13] by simp

subsection \<open>The dice engine\<close>

lemma die_range: "0 \<le> u \<Longrightarrow> u < 1 \<Longrightarrow> 1 \<le> s \<Longrightarrow> 1 \<le> die s u \<and> die s u \<le> int s"
proof -
  assume u: "0 \<le> u" "u < 1" and s: "1 \<le> s"
  have "0 \<le> u * real s" using u by simp
  then have lo: "0 \<le> \<lfloor>u * real s\<rfloor>" by simp
  have "u * real s < real s" using u s by simp
  then have "\<lfloor>u * real s\<rfloor> < int s" by (simp add: floor_less_iff)
  with lo show ?thesis by (simp add: die_def)
qed


lemma roll_loop_sum:
  "roll_loop n s acc (f, p) = (acc + (\<Sum>i<n. die s (f (p + i))), (f, p + n))"
proof (induction n arbitrary: acc p)
  case 0
  show ?case by simp
next
  case (Suc n)
  show ?case
    by (simp add: random_def Suc.IH sum.lessThan_Suc_shift add.assoc del: sum.lessThan_Suc)
qed

lemma roll_eq: "roll (c, s) g = ((\<Sum>i<c. die s (fst g (snd g + i))), (fst g, snd g + c))"
  using roll_loop_sum [of c s 0 "fst g" "snd g"] by (simp add: roll_def)


lemma roll_bounds:
  assumes "rng_ok g" "1 \<le> s"
  shows "int c \<le> fst (roll (c, s) g) \<and> fst (roll (c, s) g) \<le> int c * int s"
proof -
  let ?f = "\<lambda>i. die s (fst g (snd g + i))"
  have each: "\<And>i. 1 \<le> ?f i \<and> ?f i \<le> int s"
    using assms by (intro die_range) (simp_all add: rng_ok_def)
  have "(\<Sum>i<c. (1::int)) \<le> (\<Sum>i<c. ?f i)"
    by (rule sum_mono) (simp add: each)
  moreover have "(\<Sum>i<c. ?f i) \<le> (\<Sum>i<c. int s)"
    by (rule sum_mono) (simp add: each)
  ultimately show ?thesis by (simp add: roll_eq)
qed



subsection \<open>Loaded tables\<close>

lemma split_on_nonempty: "split_on sep xs \<noteq> []"
  by (induction xs) (auto split: list.splits)

text \<open>Every row that the loader produces has a first cell.\<close>

lemma readTsv_rows_nonempty: "r \<in> set (readTsv content) \<Longrightarrow> r \<noteq> []"
  by (auto simp: readTsv_def split_on_nonempty)

lemma load_tables_rows_nonempty:
  "r \<in> set (occupationRows (load_tables occupations names looks bonds)) \<Longrightarrow> r \<noteq> []"
  using readTsv_rows_nonempty [of r occupations]
  by (cases "readTsv occupations") (auto simp: load_tables_def)

subsection \<open>Decimal digits\<close>

lemma digit_cases: "d < 10 \<Longrightarrow> d \<in> {0, 1, 2, 3, 4, 5, 6, 7, 8, 9::nat}"
  by auto

lemma is_digit_digit_char: "d < 10 \<Longrightarrow> is_digit (digit_char d)"
  unfolding is_digit_def digit_char_def by (rule nth_mem) simp

lemma digit_val_digit_char: "d < 10 \<Longrightarrow> digit_val (digit_char d) = d"
  using digit_cases [of d] by (auto simp: digit_val_def digit_char_def)

lemma is_digit_not_special:
  "is_digit c \<Longrightarrow> \<not> is_space c \<and> c \<noteq> CHR ''-'' \<and> c \<noteq> CHR ''+'' \<and> c \<noteq> CHR ''{''
     \<and> c \<noteq> CHR ''}'' \<and> c \<noteq> CHR ''d''"
  by (auto simp: is_digit_def is_space_def)

lemma digits_of_digits: "digits_of n \<noteq> [] \<and> (\<forall>c\<in>set (digits_of n). is_digit c)"
proof (induction n rule: digits_of.induct)
  case (1 n)
  show ?case
  proof (cases "n < 10")
    case True
    then show ?thesis by (simp add: digits_of.simps [of n] is_digit_digit_char)
  next
    case False
    then show ?thesis using "1" by (simp add: digits_of.simps [of n] is_digit_digit_char)
  qed
qed

lemma digits_value_snoc: "digits_value (ds @ [c]) = 10 * digits_value ds + digit_val c"
  by (simp add: digits_value_def)

lemma digits_value_digits_of: "digits_value (digits_of n) = n"
proof (induction n rule: digits_of.induct)
  case (1 n)
  show ?case
  proof (cases "n < 10")
    case True
    then show ?thesis
      by (simp add: digits_of.simps [of n] digits_value_def digit_val_digit_char)
  next
    case False
    then show ?thesis
      using "1" by (simp add: digits_of.simps [of n] digits_value_snoc digit_val_digit_char)
  qed
qed

lemma dropWhile_space_digits: "\<forall>c\<in>set ds. is_digit c \<Longrightarrow> dropWhile is_space ds = ds"
  by (cases ds) (simp_all add: is_digit_not_special)

lemma trim_digits: "\<forall>c\<in>set ds. is_digit c \<Longrightarrow> trim ds = ds"
  by (simp add: trim_def dropWhile_space_digits)

lemma Number_digits:
  assumes "ds \<noteq> []" "\<forall>c\<in>set ds. is_digit c"
  shows "Number ds = Num (int (digits_value ds))"
proof -
  from assms obtain c r where ds: "ds = c # r" by (cases ds) auto
  with assms have "is_digit c" by simp
  then have "c \<noteq> CHR ''-''" "c \<noteq> CHR ''+''" by (simp_all add: is_digit_not_special)
  then show ?thesis
    using assms ds by (simp add: Number_def trim_digits unsigned_digits_def list_all_iff)
qed

lemma parseInt_digits:
  assumes "ds \<noteq> []" "\<forall>c\<in>set ds. is_digit c"
  shows "parseInt ds = Num (int (digits_value ds))"
proof -
  have "is_digit (hd ds)" using assms by simp
  then have c: "hd ds \<noteq> CHR ''-''" "hd ds \<noteq> CHR ''+''" by (simp_all add: is_digit_not_special)
  have tw: "takeWhile is_digit ds = ds" using assms by (simp add: takeWhile_eq_all_conv)
  have dw: "dropWhile is_space ds = ds" by (rule dropWhile_space_digits [OF assms(2)])
  show ?thesis
    unfolding parseInt_def Let_def dw using assms(1) c by (simp add: tw)
qed

subsection \<open>Occupation ranges\<close>

lemma split_on_no_sep: "sep \<notin> set xs \<Longrightarrow> split_on sep xs = [xs]"
  by (induction xs) auto

lemma split_on_append: "sep \<notin> set xs \<Longrightarrow> split_on sep (xs @ sep # ys) = xs # split_on sep ys"
  by (induction xs) auto

lemma parseRange_single:
  assumes "ds \<noteq> []" "\<forall>c\<in>set ds. is_digit c"
  shows "parseRange ds = (Num (int (digits_value ds)), Num (int (digits_value ds)))"
proof -
  have "CHR ''-'' \<notin> set ds" using assms(2) is_digit_not_special by blast
  then show ?thesis by (simp add: parseRange_def split_on_no_sep Number_digits [OF assms])
qed

lemma parseRange_pair:
  assumes "as \<noteq> []" "\<forall>c\<in>set as. is_digit c" "bs \<noteq> []" "\<forall>c\<in>set bs. is_digit c"
  shows "parseRange (as @ CHR ''-'' # bs) = (Num (int (digits_value as)), Num (int (digits_value bs)))"
proof -
  have "CHR ''-'' \<notin> set as" "CHR ''-'' \<notin> set bs" using assms is_digit_not_special by blast+
  then show ?thesis
    by (simp add: parseRange_def split_on_append split_on_no_sep
        Number_digits [OF assms(1,2)] Number_digits [OF assms(3,4)])
qed

text \<open>
  C5: the range test is inclusive at both ends. For the text \<open>5-9\<close> the rolls 5, 7 and 9
  match and 4 and 10 do not; for a single number such as \<open>42\<close> the two bounds are that
  number and only that roll matches. The same holds for the decimal text of any number and
  of any pair of numbers.
\<close>

theorem range_matching_inclusive:
  "range_matches ''5-9'' r = (5 \<le> r \<and> r \<le> 9)
   \<and> map (range_matches ''5-9'') [5, 7, 9, 4, 10] = [True, True, True, False, False]
   \<and> parseRange ''42'' = (Num 42, Num 42)
   \<and> range_matches ''42'' r = (r = 42)
   \<and> parseRange (digits_of n) = (Num (int n), Num (int n))
   \<and> range_matches (digits_of n) r = (r = int n)
   \<and> range_matches (digits_of a @ ''-'' @ digits_of b) r = (int a \<le> r \<and> r \<le> int b)"
proof -
  have p59: "parseRange ''5-9'' = (Num 5, Num 9)"
    by (simp add: parseRange_def Number_def trim_def is_space_def unsigned_digits_def
        is_digit_def digits_value_def digit_val_def)
  have p42: "parseRange ''42'' = (Num 42, Num 42)"
    by (simp add: parseRange_def Number_def trim_def is_space_def unsigned_digits_def
        is_digit_def digits_value_def digit_val_def)
  have pn: "parseRange (digits_of n) = (Num (int n), Num (int n))"
    using parseRange_single [of "digits_of n"] digits_of_digits [of n]
    by (simp add: digits_value_digits_of)
  have pab: "parseRange (digits_of a @ ''-'' @ digits_of b) = (Num (int a), Num (int b))"
    using parseRange_pair [of "digits_of a" "digits_of b"] digits_of_digits [of a]
      digits_of_digits [of b]
    by (simp add: digits_value_digits_of)
  show ?thesis
    unfolding range_matches_def p59 p42 pn pab by auto
qed

theorem range_matching_inclusive_witness:
  "range_matches ''5-9'' 7 \<and> \<not> range_matches ''5-9'' 10 \<and> range_matches ''42'' 42
   \<and> \<not> range_matches ''42'' 41 \<and> digits_of 17 = ''17'' \<and> range_matches ''17'' 17
   \<and> digits_of 3 @ ''-'' @ digits_of 12 = ''3-12'' \<and> range_matches ''3-12'' 12"
  using range_matching_inclusive [of 7 17 3 12] range_matching_inclusive [of 10 17 3 12]
    range_matching_inclusive [of 42 17 3 12] range_matching_inclusive [of 41 17 3 12]
    range_matching_inclusive [of 17 17 3 12] range_matching_inclusive [of 12 17 3 12]
  by (simp add: digits_of.simps digit_char_def)

subsection \<open>Splitting the gear string\<close>

lemma parseGear_loop_items:
  "parseGear_loop cs items cur d = items @ parseGear_loop cs [] cur d"
proof (induction cs arbitrary: items cur d)
  case Nil
  show ?case by simp
next
  case (Cons c cs)
  show ?case
    using Cons.IH [of "items @ [trim cur]" "[]"] Cons.IH [of "[trim cur]" "[]"]
      Cons.IH [of items "cur @ [c]"]
    by (auto simp: Let_def)
qed

lemma parseGear_loop_no_comma:
  "(\<forall>i<length cs. cs ! i = CHR '','' \<longrightarrow> d + depth_after (take i cs) \<noteq> 0) \<Longrightarrow>
   parseGear_loop cs items cur d
     = (if trim (cur @ cs) \<noteq> [] then items @ [trim (cur @ cs)] else items)"
proof (induction cs arbitrary: cur d)
  case Nil
  show ?case by simp
next
  case (Cons c cs)
  let ?d2 = "d + (if c = CHR ''('' then 1 else if c = CHR '')'' then - 1 else 0)"
  have later: "\<forall>i<length cs. cs ! i = CHR '','' \<longrightarrow> ?d2 + depth_after (take i cs) \<noteq> 0"
  proof (intro allI impI)
    fix i assume "i < length cs" "cs ! i = CHR '',''"
    then show "?d2 + depth_after (take i cs) \<noteq> 0"
      using Cons.prems [rule_format, of "Suc i"] by simp
  qed
  have here: "c = CHR '','' \<Longrightarrow> d \<noteq> 0"
    using Cons.prems [rule_format, of 0] by simp
  show ?case
    using Cons.IH [OF later, of "cur @ [c]"] here by (auto simp: Let_def)
qed

lemma parseGear_loop_first_comma:
  "i < length cs \<Longrightarrow> cs ! i = CHR '','' \<Longrightarrow> d + depth_after (take i cs) = 0 \<Longrightarrow>
   (\<forall>j<i. cs ! j = CHR '','' \<longrightarrow> d + depth_after (take j cs) \<noteq> 0) \<Longrightarrow>
   parseGear_loop cs items cur d
     = parseGear_loop (drop (Suc i) cs) (items @ [trim (cur @ take i cs)]) [] 0"
proof (induction cs arbitrary: i cur d)
  case Nil
  then show ?case by simp
next
  case (Cons c cs)
  show ?case
  proof (cases i)
    case 0
    with Cons.prems show ?thesis by (simp add: Let_def)
  next
    case (Suc k)
    let ?d2 = "d + (if c = CHR ''('' then 1 else if c = CHR '')'' then - 1 else 0)"
    have k: "k < length cs" "cs ! k = CHR '',''" "?d2 + depth_after (take k cs) = 0"
      using Cons.prems(1,2,3) Suc by simp_all
    have earlier: "\<forall>j<k. cs ! j = CHR '','' \<longrightarrow> ?d2 + depth_after (take j cs) \<noteq> 0"
    proof (intro allI impI)
      fix j assume "j < k" "cs ! j = CHR '',''"
      then show "?d2 + depth_after (take j cs) \<noteq> 0"
        using Cons.prems(4) [rule_format, of "Suc j"] Suc by simp
    qed
    have here: "c = CHR '','' \<Longrightarrow> d \<noteq> 0"
      using Cons.prems(4) [rule_format, of 0] Suc by simp
    show ?thesis
      using Cons.IH [OF k earlier, of "cur @ [c]"] here Suc by (auto simp: Let_def)
  qed
qed

text \<open>
  C6: \<open>parseGear\<close> cuts the gear string at the commas of nesting depth zero and nowhere
  else. A string without such a comma is one item, its trimmed text (no item when that is
  blank); a string whose first top-level comma is at position \<open>i\<close> gives the trimmed text
  before it, followed by the items of the text after it. So \<open>cage (1 wt), 2 ferrets\<close> is
  split into two items, not three.
\<close>

theorem parseGear_top_level_commas:
  "parseGear ''cage (1 wt), 2 ferrets'' = [''cage (1 wt)'', ''2 ferrets'']
   \<and> ((\<forall>i<length s. \<not> top_level_comma s i) \<longrightarrow>
        parseGear s = (if trim s = [] then [] else [trim s]))
   \<and> (top_level_comma s i \<and> (\<forall>j<i. \<not> top_level_comma s j) \<longrightarrow>
        parseGear s = trim (take i s) # parseGear (drop (Suc i) s))"
proof (intro conjI impI)
  show "parseGear ''cage (1 wt), 2 ferrets'' = [''cage (1 wt)'', ''2 ferrets'']"
    by (simp add: parseGear_def trim_def is_space_def)
next
  assume "\<forall>i<length s. \<not> top_level_comma s i"
  then have "\<forall>i<length s. s ! i = CHR '','' \<longrightarrow> 0 + depth_after (take i s) \<noteq> 0"
    by (simp add: top_level_comma_def)
  from parseGear_loop_no_comma [OF this, of "[]" "[]"]
  show "parseGear s = (if trim s = [] then [] else [trim s])"
    by (simp add: parseGear_def)
next
  assume a: "top_level_comma s i \<and> (\<forall>j<i. \<not> top_level_comma s j)"
  then have i: "i < length s" "s ! i = CHR '',''" "0 + depth_after (take i s) = 0"
    by (simp_all add: top_level_comma_def)
  have "\<forall>j<i. s ! j = CHR '','' \<longrightarrow> 0 + depth_after (take j s) \<noteq> 0"
    using a i(1) by (simp add: top_level_comma_def)
  from parseGear_loop_first_comma [OF i this, of "[]" "[]"]
  show "parseGear s = trim (take i s) # parseGear (drop (Suc i) s)"
    using parseGear_loop_items [of "drop (Suc i) s" "[trim (take i s)]" "[]" 0]
    by (simp add: parseGear_def)
qed

theorem parseGear_top_level_commas_witness:
  "top_level_comma ''cage (1 wt), 2 ferrets'' 11
   \<and> filter (top_level_comma ''cage (1 wt), 2 ferrets'') [0..<11] = []
   \<and> parseGear ''cage (1 wt), 2 ferrets'' = ''cage (1 wt)'' # parseGear '' 2 ferrets''
   \<and> filter (top_level_comma ''2 dogs (a, b)'') [0..<length ''2 dogs (a, b)''] = []
   \<and> parseGear ''2 dogs (a, b)'' = [''2 dogs (a, b)'']"
proof -
  have c: "top_level_comma ''cage (1 wt), 2 ferrets'' 11"
    by (simp add: top_level_comma_def)
  have n: "\<forall>j<11. \<not> top_level_comma ''cage (1 wt), 2 ferrets'' j"
    by (simp add: top_level_comma_def All_less_Suc numeral_eq_Suc)
  have d: "\<forall>i<length ''2 dogs (a, b)''. \<not> top_level_comma ''2 dogs (a, b)'' i"
    by (simp add: top_level_comma_def All_less_Suc)
  have "filter (top_level_comma ''cage (1 wt), 2 ferrets'') [0..<11] = []"
    using n by (simp add: filter_empty_conv)
  moreover have
    "filter (top_level_comma ''2 dogs (a, b)'') [0..<length ''2 dogs (a, b)''] = []"
    using d by (simp only: filter_empty_conv set_upt atLeastLessThan_iff) simp
  ultimately show ?thesis
    using c n d parseGear_top_level_commas [of "''cage (1 wt), 2 ferrets''" 11]
      parseGear_top_level_commas [of "''2 dogs (a, b)''" 0]
    by (simp add: trim_def is_space_def)
qed

subsection \<open>The random source is only read\<close>

lemma roll_source: "fst (snd (roll d g)) = fst g"
  by (cases d) (simp add: roll_eq)

lemma rng_ok_source: "fst g' = fst g \<Longrightarrow> rng_ok g \<Longrightarrow> rng_ok g'"
  by (simp add: rng_ok_def)

lemma replace_dice_source: "fst (snd (replace_dice s g)) = fst g"
proof (induction s g rule: replace_dice.induct)
  case (1 g)
  show ?case by simp
next
  case (2 c cs g)
  show ?case
  proof (cases "match_dice (c # cs)")
    case None
    with "2.IH" show ?thesis by (simp add: case_prod_beta)
  next
    case (Some m)
    have "fst (snd (replace_dice (snd m) (snd (roll (fst m) g)))) = fst (snd (roll (fst m) g))"
      by (rule "2.IH"(2) [OF Some]) (rule prod.collapse)+
    then show ?thesis using Some by (simp add: case_prod_beta roll_source)
  qed
qed

lemma replace_token_source:
  "(\<And>h. fst (snd (f h)) = fst h) \<Longrightarrow> fst (snd (replace_token pat f s g)) = fst g"
proof (induction pat f s g rule: replace_token.induct)
  case (1 pat f g)
  show ?case by simp
next
  case (2 pat f c cs g)
  show ?case
  proof (cases "take (length pat) (c # cs) = pat")
    case False
    with "2.IH"(2) "2.prems" show ?thesis by (simp add: case_prod_beta)
  next
    case True
    have "fst (snd (replace_token pat f (drop (length pat - 1) cs) (snd (f g)))) = fst (snd (f g))"
      by (rule "2.IH"(1) [OF True prod.collapse]) (rule "2.prems")
    then show ?thesis using True "2.prems" by (simp add: case_prod_beta)
  qed
qed

lemma callbacks_source:
  "fst (snd (compound_value g)) = fst g"
  "fst (snd (crop_value g)) = fst g"
  "fst (snd (instrument_value g)) = fst g"
  "fst (snd (animal_trainer_gear_value g)) = fst g"
  "fst (snd (poultry_value g)) = fst g"
  by (simp_all add: compound_value_def crop_value_def instrument_value_def
      animal_trainer_gear_value_def poultry_value_def case_prod_beta roll_source)

lemma expandGearTemplate_source: "fst (snd (expandGearTemplate t g)) = fst g"
  by (simp add: expandGearTemplate_def case_prod_beta replace_token_source callbacks_source
      replace_dice_source)

subsection \<open>Table lookups under well-formed tables\<close>

lemma elem_at_Some: "0 \<le> i \<Longrightarrow> i < int (length xs) \<Longrightarrow> \<exists>x. elem_at xs i = Some x \<and> x \<in> set xs"
  by (simp add: elem_at_def)

lemma roll_one:
  assumes "rng_ok g" "1 \<le> s"
  shows "\<exists>n. roll (1, s) g = (n, (fst g, Suc (snd g))) \<and> 1 \<le> n \<and> n \<le> int s
           \<and> rng_ok (fst g, Suc (snd g))"
  using roll_bounds [OF assms, of 1] assms(1) by (simp add: roll_eq rng_ok_def)

lemma find_occupation_finds:
  "\<forall>r\<in>set rows. r \<noteq> [] \<Longrightarrow> \<exists>r\<in>set rows. range_matches (hd r) n \<Longrightarrow>
   \<exists>r\<in>set rows. find_occupation rows n = Inr (Some r) \<and> range_matches (hd r) n"
proof (induction rows)
  case Nil
  then show ?case by simp
next
  case (Cons r rows)
  from Cons.prems(1) obtain cell rest where r: "r = cell # rest" by (cases r) auto
  show ?case
  proof (cases "range_matches cell n")
    case True
    then show ?thesis by (simp add: r)
  next
    case False
    with Cons.prems r have "\<exists>r\<in>set rows. range_matches (hd r) n" by auto
    with Cons.IH Cons.prems(1) have
      "\<exists>r\<in>set rows. find_occupation rows n = Inr (Some r) \<and> range_matches (hd r) n" by simp
    with False show ?thesis by (auto simp add: r)
  qed
qed

lemma getOccupation_succeeds:
  assumes "tables_well_formed T" "1 \<le> n" "n \<le> 100"
  shows "\<exists>r template. r \<in> set (occupationRows T)
           \<and> find_occupation (occupationRows T) n = Inr (Some r)
           \<and> elem_at r 2 = Some template \<and> elem_at r 1 \<noteq> None
           \<and> getOccupation T n g
              = Inr (\<lparr>occ_name = elem_at r 1, occ_gear = fst (expandGearTemplate template g),
                      occ_species = (case elem_at r 3 of None \<Rightarrow> ''Human''
                                     | Some sp \<Rightarrow> if sp = [] then ''Human'' else sp)\<rparr>,
                     snd (expandGearTemplate template g))"
proof -
  have ne: "\<forall>r\<in>set (occupationRows T). r \<noteq> []"
    using assms(1) by (simp add: tables_well_formed_def tables_as_claimed_def)
  have "\<exists>r\<in>set (occupationRows T). range_matches (hd r) n"
    using assms by (simp add: tables_well_formed_def tables_as_claimed_def)
  from find_occupation_finds [OF ne this] obtain r where
    r: "r \<in> set (occupationRows T)" "find_occupation (occupationRows T) n = Inr (Some r)"
    by blast
  have len: "3 \<le> length r" using assms(1) r(1) by (simp add: tables_well_formed_def)
  then have cells: "elem_at r 2 = Some (r ! 2)" "elem_at r 1 = Some (r ! 1)"
    by (simp_all add: elem_at_def)
  show ?thesis
    using r cells by (auto simp: getOccupation_def case_prod_beta)
qed

lemma getName_succeeds:
  assumes "table_has (nameRows T) 7" "rng_ok g"
  shows "\<exists>nm g'. getName T sp g = Inr (Some nm, g') \<and> fst g' = fst g"
proof -
  from roll_one [OF assms(2), of 20] obtain n where
    n: "roll (1, 20) g = (n, (fst g, Suc (snd g)))" "1 \<le> n" "n \<le> 20"
      "rng_ok (fst g, Suc (snd g))" by auto
  have "0 \<le> n - 1" "n - 1 < int (length (nameRows T))"
    using n assms(1) by (simp_all add: table_has_def)
  from elem_at_Some [OF this] obtain r where
    r: "elem_at (nameRows T) (n - 1) = Some r" "r \<in> set (nameRows T)" by blast
  then have len: "7 \<le> length r" using assms(1) by (simp add: table_has_def)
  from roll_one [OF n(4), of 2] obtain a where
    a: "roll (1, 2) (fst g, Suc (snd g)) = (a, (fst g, Suc (Suc (snd g))))"
      "rng_ok (fst g, Suc (Suc (snd g)))" by auto
  from roll_one [OF a(2), of 2] obtain b where
    b: "roll (1, 2) (fst g, Suc (Suc (snd g))) = (b, (fst g, Suc (Suc (Suc (snd g)))))"
      "1 \<le> b" "b \<le> 2" by auto
  have cells: "\<And>k. 0 \<le> k \<Longrightarrow> k \<le> 6 \<Longrightarrow> elem_at r k = Some (r ! nat k)"
    using len by (simp add: elem_at_def)
  show ?thesis
    using n(1) r a(1) b cells [of 4] cells [of 5] cells [of 6] cells [of 3] cells [of b]
    by (simp add: getName_def)
qed

lemma look_cell_succeeds:
  assumes "table_has (lookRows T) 6" "rng_ok g" "0 \<le> col" "col \<le> 5"
  shows "\<exists>c. look_cell T col g = Inr (Some c, (fst g, Suc (snd g)))"
proof -
  from roll_one [OF assms(2), of 20] obtain n where
    n: "roll (1, 20) g = (n, (fst g, Suc (snd g)))" "1 \<le> n" "n \<le> 20" by auto
  have "0 \<le> n - 1" "n - 1 < int (length (lookRows T))"
    using n assms(1) by (simp_all add: table_has_def)
  from elem_at_Some [OF this] obtain r where
    r: "elem_at (lookRows T) (n - 1) = Some r" "r \<in> set (lookRows T)" by blast
  then have len: "6 \<le> length r" using assms(1) by (simp add: table_has_def)
  then have "elem_at r col = Some (r ! nat col)" using assms(3,4) by (simp add: elem_at_def)
  then show ?thesis using n(1) r by (simp add: look_cell_def)
qed

lemma rng_ok_shift: "rng_ok g \<Longrightarrow> rng_ok (fst g, p)"
  by (simp add: rng_ok_def)

lemma getLook_succeeds:
  assumes "table_has (lookRows T) 6" "rng_ok g"
  shows "\<exists>l g'. getLook T g = Inr (l, g') \<and> fst g' = fst g"
proof -
  note ok = rng_ok_shift [OF assms(2)]
  from look_cell_succeeds [OF assms, of 1] obtain c1 where
    1: "look_cell T 1 g = Inr (Some c1, (fst g, Suc (snd g)))" by auto
  from look_cell_succeeds [OF assms(1) ok, of 2 "Suc (snd g)"] obtain c2 where
    2: "look_cell T 2 (fst g, Suc (snd g)) = Inr (Some c2, (fst g, Suc (Suc (snd g))))"
    by auto
  from look_cell_succeeds [OF assms(1) ok, of 3 "Suc (Suc (snd g))"] obtain c3 where
    3: "look_cell T 3 (fst g, Suc (Suc (snd g)))
        = Inr (Some c3, (fst g, Suc (Suc (Suc (snd g)))))"
    by auto
  from look_cell_succeeds [OF assms(1) ok, of 4 "Suc (Suc (Suc (snd g)))"] obtain c4 where
    4: "look_cell T 4 (fst g, Suc (Suc (Suc (snd g))))
        = Inr (Some c4, (fst g, Suc (Suc (Suc (Suc (snd g))))))"
    by auto
  from look_cell_succeeds [OF assms(1) ok, of 5 "Suc (Suc (Suc (Suc (snd g))))"] obtain c5 where
    5: "look_cell T 5 (fst g, Suc (Suc (Suc (Suc (snd g)))))
        = Inr (Some c5, (fst g, Suc (Suc (Suc (Suc (Suc (snd g)))))))"
    by auto
  show ?thesis
    using 1 2 3 4 5 by (simp add: getLook_def)
qed

lemma getBond_succeeds:
  assumes "table_has (bondRows T) 5" "rng_ok g"
  shows "\<exists>b g'. getBond T g = Inr (b, g') \<and> fst g' = fst g"
proof -
  from roll_one [OF assms(2), of 20] obtain n where
    n: "roll (1, 20) g = (n, (fst g, Suc (snd g)))" "1 \<le> n" "n \<le> 20"
      "rng_ok (fst g, Suc (snd g))" by auto
  have "0 \<le> n - 1" "n - 1 < int (length (bondRows T))"
    using n assms(1) by (simp_all add: table_has_def)
  from elem_at_Some [OF this] obtain r where
    r: "elem_at (bondRows T) (n - 1) = Some r" "r \<in> set (bondRows T)" by blast
  then have len: "5 \<le> length r" using assms(1) by (simp add: table_has_def)
  from roll_one [OF n(4), of 4] obtain k where
    k: "roll (1, 4) (fst g, Suc (snd g)) = (k, (fst g, Suc (Suc (snd g))))" by auto
  have "elem_at r 0 = Some (r ! 0)" using len by (cases r) (simp_all add: elem_at_def)
  then show ?thesis using n(1) r k by (simp add: getBond_def)
qed

subsection \<open>The generator\<close>

lemma roll_snd: "snd (roll (c, s) g) = (fst g, snd g + c)"
  by (simp add: roll_eq)

lemma getOccupation_Inr:
  "getOccupation T n g = Inr (occ, g') \<Longrightarrow>
   \<exists>r template. find_occupation (occupationRows T) n = Inr (Some r)
     \<and> elem_at r 2 = Some template \<and> occ_name occ = elem_at r 1
     \<and> occ_gear occ = fst (expandGearTemplate template g)
     \<and> g' = snd (expandGearTemplate template g)"
  by (auto simp: getOccupation_def case_prod_beta split: sum.splits option.splits)

lemma generateVillager_Inr:
  assumes "generateVillager T g = Inr (v, g')"
  shows "\<exists>occ g9. getOccupation T (fst (roll (1, 100) (fst g, snd g + 21))) (fst g, snd g + 22)
            = Inr (occ, g9)
     \<and> stats v = \<lparr>a_STR = fst (roll (3, 6) g), a_DEX = fst (roll (3, 6) (fst g, snd g + 3)),
                  a_CON = fst (roll (3, 6) (fst g, snd g + 6)),
                  a_INT = fst (roll (3, 6) (fst g, snd g + 9)),
                  a_WIS = fst (roll (3, 6) (fst g, snd g + 12)),
                  a_CHA = fst (roll (3, 6) (fst g, snd g + 15)),
                  a_LUC = fst (roll (3, 6) (fst g, snd g + 18))\<rparr>
     \<and> modifiers v = \<lparr>a_STR = getMod (a_STR (stats v)), a_DEX = getMod (a_DEX (stats v)),
                      a_CON = getMod (a_CON (stats v)), a_INT = getMod (a_INT (stats v)),
                      a_WIS = getMod (a_WIS (stats v)), a_CHA = getMod (a_CHA (stats v)),
                      a_LUC = getMod (a_LUC (stats v))\<rparr>
     \<and> hp v = a_CON (stats v) + 4 \<and> load v = a_STR (stats v) + 4 \<and> damage v = ''d4''
     \<and> gear v = [occ_gear occ] \<and> species v = occ_species occ \<and> occupation v = occ_name occ
     \<and> heritageMoves v = getHeritageMoves (species v)"
  using assms
  by (auto simp: generateVillager_def case_prod_beta roll_snd add.commute split: sum.splits)

lemma generateVillager_succeeds:
  assumes "tables_well_formed T" "rng_ok g"
  shows "\<exists>v g'. generateVillager T g = Inr (v, g') \<and> fst g' = fst g
           \<and> name v \<noteq> None \<and> occupation v \<noteq> None"
proof -
  have tabs: "table_has (nameRows T) 7" "table_has (lookRows T) 6" "table_has (bondRows T) 5"
    using assms(1) by (simp_all add: tables_well_formed_def tables_as_claimed_def)
  let ?g7 = "(fst g, snd g + 21)" and ?g8 = "(fst g, snd g + 22)"
  let ?n = "fst (roll (1, 100) ?g7)"
  have "1 \<le> ?n" "?n \<le> 100"
    using roll_bounds [where g = ?g7 and s = 100 and c = 1] rng_ok_shift [OF assms(2)]
    by simp_all
  from getOccupation_succeeds [OF assms(1) this, of ?g8] obtain r template where
    occ: "elem_at r 1 \<noteq> None"
      "getOccupation T ?n ?g8
         = Inr (\<lparr>occ_name = elem_at r 1, occ_gear = fst (expandGearTemplate template ?g8),
                 occ_species = (case elem_at r 3 of None \<Rightarrow> ''Human''
                                | Some sp \<Rightarrow> if sp = [] then ''Human'' else sp)\<rparr>,
                snd (expandGearTemplate template ?g8))"
    by blast
  let ?g9 = "snd (expandGearTemplate template ?g8)"
  let ?sp = "case elem_at r 3 of None \<Rightarrow> ''Human'' | Some sp \<Rightarrow> if sp = [] then ''Human'' else sp"
  have s9: "fst ?g9 = fst g" using expandGearTemplate_source [of template ?g8] by simp
  then have ok9: "rng_ok ?g9" using assms(2) by (simp add: rng_ok_def)
  from getName_succeeds [OF tabs(1) ok9, of ?sp] obtain nm g10 where
    nm: "getName T ?sp ?g9 = Inr (Some nm, g10)" "fst g10 = fst ?g9" by blast
  then have ok10: "rng_ok g10" using ok9 by (simp add: rng_ok_def)
  from getLook_succeeds [OF tabs(2) ok10] obtain lk g11 where
    lk: "getLook T g10 = Inr (lk, g11)" "fst g11 = fst g10" by blast
  then have ok11: "rng_ok g11" using ok10 by (simp add: rng_ok_def)
  from getBond_succeeds [OF tabs(3) ok11] obtain bd g12 where
    bd: "getBond T g11 = Inr (bd, g12)" "fst g12 = fst g11" by blast
  have "fst g12 = fst g" using bd(2) lk(2) nm(2) s9 by simp
  then show ?thesis
    using occ nm(1) lk(1) bd(1)
    by (simp add: generateVillager_def case_prod_beta roll_snd add.commute)
qed

lemma outcome_Inr: "outcome r = Inr x \<Longrightarrow> \<exists>g. r = Inr (x, g)"
  by (auto simp: outcome_def split: sum.splits)

lemma sample_run: "outcome (generateVillager sample_tables zero_rng) = Inr sample_villager"
  by code_simp


lemma rng_ok_zero: "rng_ok zero_rng"
  by (simp add: rng_ok_def zero_rng_def)

lemma parseRange_samples:
  "parseRange ''1-50'' = (Num 1, Num 50)" "parseRange ''51-100'' = (Num 51, Num 100)"
  "parseRange ''1-100'' = (Num 1, Num 100)"
  by (simp_all add: parseRange_def Number_def trim_def is_space_def unsigned_digits_def
      is_digit_def digits_value_def digit_val_def)

lemma sample_tables_well_formed: "tables_well_formed sample_tables"
  unfolding tables_well_formed_def tables_as_claimed_def sample_tables_def table_has_def
  by (auto simp add: range_parses_def range_matches_def parseRange_samples)


lemma generateVillager_invariants:
  assumes "generateVillager T g = Inr (v, g')" "rng_ok g"
  shows "villager_invariants v"
proof -
  have sc: "\<And>p. score_ok (fst (roll (3, 6) (fst g, p)))"
    using roll_bounds [where s = 6 and c = 3] rng_ok_shift [OF assms(2)]
    by (simp add: score_ok_def)
  have "score_ok (fst (roll (3, 6) g))" using sc [of "snd g"] by simp
  moreover have "length (getHeritageMoves sp) \<le> 1" for sp
    by (simp add: getHeritageMoves_def)
  ultimately show ?thesis
    using generateVillager_Inr [OF assms(1)] sc
    unfolding villager_invariants_def by auto
qed

text \<open>
  C8: for every villager that \<open>generateVillager\<close> returns, \<open>hp\<close> is the CON score plus 4,
  \<open>load\<close> is the STR score plus 4 and the damage is the text \<open>d4\<close>; the two scores are
  between 3 and 18, so \<open>hp\<close> and \<open>load\<close> are between 7 and 22.
\<close>

theorem hp_load_damage:
  assumes "generateVillager T g = Inr (v, g')"
  shows "hp v = a_CON (stats v) + 4 \<and> load v = a_STR (stats v) + 4 \<and> damage v = ''d4''
    \<and> (rng_ok g \<longrightarrow> 3 \<le> a_CON (stats v) \<and> a_CON (stats v) \<le> 18
                    \<and> 3 \<le> a_STR (stats v) \<and> a_STR (stats v) \<le> 18
                    \<and> 7 \<le> hp v \<and> hp v \<le> 22 \<and> 7 \<le> load v \<and> load v \<le> 22)"
proof -
  have "rng_ok g \<Longrightarrow> score_ok (a_CON (stats v)) \<and> score_ok (a_STR (stats v))"
    using generateVillager_invariants [OF assms] by (simp add: villager_invariants_def)
  then show ?thesis
    using generateVillager_Inr [OF assms] by (auto simp: score_ok_def)
qed

theorem hp_load_damage_witness:
  "outcome (generateVillager sample_tables zero_rng) = Inr sample_villager
   \<and> rng_ok zero_rng
   \<and> a_CON (stats sample_villager) = 3 \<and> hp sample_villager = 3 + 4
   \<and> a_STR (stats sample_villager) = 3 \<and> load sample_villager = 3 + 4
   \<and> damage sample_villager = ''d4''"
proof -
  from outcome_Inr [OF sample_run] obtain g' where
    run: "generateVillager sample_tables zero_rng = Inr (sample_villager, g')" ..
  show ?thesis
    using hp_load_damage [OF run] sample_run rng_ok_zero by (simp add: sample_villager_def)
qed

text \<open>
  C10: the gear of a generated villager is a list of exactly one string, the expansion of
  the gear template (third cell) of the occupation row that the roll selected. The string
  is cut into items only by the card, which applies \<open>parseGear\<close> to it.
\<close>

theorem gear_single_entry:
  assumes "generateVillager T g = Inr (v, g')"
  shows "\<exists>r template.
           find_occupation (occupationRows T) (fst (roll (1, 100) (fst g, snd g + 21)))
             = Inr (Some r)
           \<and> elem_at r 2 = Some template
           \<and> gear v = [fst (expandGearTemplate template (fst g, snd g + 22))]
           \<and> length (gear v) = 1
           \<and> card_gearItems (VillagerCard v)
               = parseGear (fst (expandGearTemplate template (fst g, snd g + 22)))"
proof -
  from generateVillager_Inr [OF assms] obtain occ g9 where
    occ: "getOccupation T (fst (roll (1, 100) (fst g, snd g + 21))) (fst g, snd g + 22)
            = Inr (occ, g9)"
    and gear: "gear v = [occ_gear occ]" by blast
  from getOccupation_Inr [OF occ] gear show ?thesis
    by (auto simp: VillagerCard_def)
qed

theorem gear_single_entry_witness:
  "outcome (generateVillager sample_tables zero_rng) = Inr sample_villager
   \<and> gear sample_villager = [''pitchfork, 1 sacks of barley'']
   \<and> length (gear sample_villager) = 1
   \<and> card_gearItems (VillagerCard sample_villager) = [''pitchfork'', ''1 sacks of barley'']"
proof -
  from outcome_Inr [OF sample_run] obtain g' where
    run: "generateVillager sample_tables zero_rng = Inr (sample_villager, g')" ..
  have "parseGear ''pitchfork, 1 sacks of barley'' = [''pitchfork'', ''1 sacks of barley'']"
    by (simp add: parseGear_def trim_def is_space_def)
  then show ?thesis
    using gear_single_entry [OF run] sample_run by (auto simp: sample_villager_def)
qed

subsection \<open>Generation never fails on well-formed tables\<close>







subsection \<open>The program\<close>

lemma generate_loop_succeeds:
  "tables_well_formed T \<Longrightarrow> rng_ok g \<Longrightarrow>
   \<exists>vs g'. generate_loop T n g = Inr (vs, g') \<and> length vs = n
     \<and> (\<forall>v\<in>set vs. villager_invariants v)"
proof (induction n arbitrary: g)
  case 0
  show ?case by simp
next
  case (Suc n)
  from generateVillager_succeeds [OF Suc.prems] obtain v g1 where
    v: "generateVillager T g = Inr (v, g1)" "fst g1 = fst g" by blast
  have inv: "villager_invariants v"
    by (rule generateVillager_invariants [OF v(1) Suc.prems(2)])
  have "rng_ok g1" using v(2) Suc.prems(2) by (simp add: rng_ok_def)
  from Suc.IH [OF Suc.prems(1) this] obtain vs g2 where
    "generate_loop T n g1 = Inr (vs, g2)" "length vs = n" "\<forall>v\<in>set vs. villager_invariants v"
    by blast
  with v(1) inv show ?case by simp
qed

lemma parseInt_digits_of: "parseInt (digits_of n) = Num (int n)"
  using parseInt_digits [of "digits_of n"] digits_of_digits [of n]
  by (simp add: digits_value_digits_of)

lemma digits_of_nonempty: "digits_of n \<noteq> []"
  using digits_of_digits [of n] by simp

lemma main_count:
  "main T (Some (digits_of n)) g =
     (if n \<ge> 4294967296 then Inl RangeError
      else case generate_loop T n g of
             Inl e \<Rightarrow> Inl e
           | Inr (vs, g') \<Rightarrow> Inr (vs, App vs))"
  by (simp add: main_def digits_of_nonempty parseInt_digits_of array_from_def toLength_def)

lemma main_absent:
  "main T None g =
     (case generateVillager T g of Inl e \<Rightarrow> Inl e | Inr (v, g') \<Rightarrow> Inr ([v], [VillagerCard v]))"
proof -
  have "parseInt ''1'' = Num 1"
    by (simp add: parseInt_def is_space_def is_digit_def digits_value_def digit_val_def)
  then show ?thesis
    by (simp add: main_def array_from_def toLength_def App_def split: sum.splits)
qed

lemma main_NaN: "a \<noteq> [] \<Longrightarrow> parseInt a = NaN \<Longrightarrow> main T (Some a) g = Inr ([], [])"
  by (simp add: main_def array_from_def toLength_def App_def)

lemma sample_program_runs:
  "main sample_tables None zero_rng = Inr ([sample_villager], App [sample_villager])"
  "main sample_tables (Some ''x'') zero_rng = Inr ([], [])"
  "main sample_tables (Some ''0'') zero_rng = Inr ([], [])"
  by code_simp+

text \<open>
  C1, as amended: with well-formed tables, an argument that is the decimal text of a number
  \<open>N\<close> below \<open>2^32\<close> yields exactly \<open>N\<close> villager records, each satisfying the
  invariants of a record (three records for \<open>3\<close>); the argument \<open>0\<close> and an argument that
  does not start with a number yield no record and an empty render; an absent argument
  makes the count 1 and yields exactly one record.
\<close>

theorem program_record_count:
  assumes "tables_well_formed T" and "rng_ok g"
  shows "(N < 4294967296 \<longrightarrow>
            (\<exists>vs. main T (Some (digits_of N)) g = Inr (vs, App vs) \<and> length vs = N
               \<and> length (App vs) = N \<and> (\<forall>v\<in>set vs. villager_invariants v)))
    \<and> (\<exists>vs. main T (Some ''3'') g = Inr (vs, App vs) \<and> length vs = 3
           \<and> (\<forall>v\<in>set vs. villager_invariants v))
    \<and> main T (Some ''0'') g = Inr ([], [])
    \<and> (a \<noteq> [] \<and> parseInt a = NaN \<longrightarrow> main T (Some a) g = Inr ([], []))
    \<and> (\<exists>v. main T None g = Inr ([v], [VillagerCard v]) \<and> villager_invariants v)
    \<and> App [] = []"
proof -
  have count: "\<exists>vs. main T (Some (digits_of n)) g = Inr (vs, App vs) \<and> length vs = n
               \<and> length (App vs) = n \<and> (\<forall>v\<in>set vs. villager_invariants v)"
    if "n < 4294967296" for n
  proof -
    from generate_loop_succeeds [OF assms, of n] obtain vs g' where
      "generate_loop T n g = Inr (vs, g')" "length vs = n" "\<forall>v\<in>set vs. villager_invariants v"
      by blast
    with that show ?thesis by (simp add: main_count App_def)
  qed
  have three: "digits_of 3 = ''3''" and zero: "digits_of 0 = ''0''"
    by (simp_all add: digits_of.simps digit_char_def)
  have c3: "\<exists>vs. main T (Some ''3'') g = Inr (vs, App vs) \<and> length vs = 3
           \<and> (\<forall>v\<in>set vs. villager_invariants v)"
    using count [of 3] three by auto
  have c0: "main T (Some ''0'') g = Inr ([], [])"
    using main_count [of T 0 g] zero by (simp add: App_def)
  from generateVillager_succeeds [OF assms] obtain v g1 where
    v: "generateVillager T g = Inr (v, g1)" by blast
  have c1: "\<exists>v. main T None g = Inr ([v], [VillagerCard v]) \<and> villager_invariants v"
    using v generateVillager_invariants [OF v assms(2)] by (simp add: main_absent)
  show ?thesis
    using count [of N] c3 c0 c1 main_NaN [of a T g] by (simp add: App_def)
qed

theorem program_record_count_witness:
  "rng_ok zero_rng \<and> ''x'' \<noteq> [] \<and> parseInt ''x'' = NaN
   \<and> main sample_tables (Some ''x'') zero_rng = Inr ([], [])
   \<and> main sample_tables None zero_rng = Inr ([sample_villager], [VillagerCard sample_villager])
   \<and> (2::nat) < 4294967296 \<and> digits_of 2 = ''2''
   \<and> map_sum id (length \<circ> fst) (main sample_tables (Some ''2'') zero_rng) = Inr 2"
proof -
  have nan: "parseInt ''x'' = NaN"
    by (simp add: parseInt_def is_space_def is_digit_def)
  have two: "digits_of 2 = ''2''"
    by (simp add: digits_of.simps digit_char_def)
  show ?thesis
    using program_record_count [OF sample_tables_well_formed rng_ok_zero, of 2 "''x''"]
      nan two rng_ok_zero sample_program_runs(1)
    by (auto simp: App_def)
qed

text \<open>
  C1, as stated, fails twice: with no argument the program generates one villager, not
  none; and a non-numeric argument does not make the count 1, it yields no villager.
\<close>

theorem absent_argument_counterexample:
  "main sample_tables None zero_rng = Inr ([sample_villager], App [sample_villager])
   \<and> length [sample_villager] = 1
   \<and> main sample_tables (Some ''x'') zero_rng = Inr ([], [])"
  using sample_program_runs by simp

subsection \<open>Token-free text\<close>






subsection \<open>Flat templates\<close>


























end
